theory Spec2Isabelle
  imports Main
begin

section \<open>Python strings\<close>

text \<open>
  A Python \<^verbatim>\<open>str\<close> is a sequence of Unicode code points, and \<^verbatim>\<open>len\<close>, slicing,
  \<^verbatim>\<open>split\<close> and \<^verbatim>\<open>strip\<close> all count code points. A code point is modelled by its
  number, a string by the list of its code points. \<open>py\<close> reads an ASCII literal.
\<close>

type_synonym pystr = "nat list"

definition py :: "string \<Rightarrow> pystr" where
  "py s = map of_char s"

text \<open>
  The characters that \<^verbatim>\<open>str.split()\<close> and \<^verbatim>\<open>str.strip()\<close> (both called without
  argument) treat as whitespace: U+0009..U+000D, U+001C..U+0020, U+0085, U+00A0, U+1680,
  U+2000..U+200A, U+2028, U+2029, U+202F, U+205F and U+3000.
\<close>

definition isspace :: "nat \<Rightarrow> bool" where
  "isspace c \<longleftrightarrow>
     (9 \<le> c \<and> c \<le> 13) \<or> (28 \<le> c \<and> c \<le> 32) \<or> c = 133 \<or> c = 160 \<or> c = 5760 \<or>
     (8192 \<le> c \<and> c \<le> 8202) \<or> c = 8232 \<or> c = 8233 \<or> c = 8239 \<or> c = 8287 \<or> c = 12288"

text \<open>The separator \<^verbatim>\<open>" "\<close> used by both joins of \<^verbatim>\<open>_clean_body\<close>.\<close>

definition SP :: pystr where
  "SP = [32]"

text \<open>
  \<^verbatim>\<open>s.split()\<close>: skip whitespace, cut the maximal run of non-whitespace characters as
  one word, repeat; no empty word is ever produced.
\<close>

function str_split :: "pystr \<Rightarrow> pystr list" where
  "str_split s =
     (case dropWhile isspace s of
        [] \<Rightarrow> []
      | c # cs \<Rightarrow> takeWhile (\<lambda>x. \<not> isspace x) (c # cs)
                    # str_split (dropWhile (\<lambda>x. \<not> isspace x) (c # cs)))"
  by pat_completeness auto
termination
proof (relation "measure length")
  show "wf (measure length)" by simp
next
  fix s :: pystr and c cs
  assume d: "dropWhile isspace s = c # cs"
  have "\<not> isspace c"
    using d hd_dropWhile [of isspace s] by auto
  then have "length (dropWhile (\<lambda>x. \<not> isspace x) (c # cs)) \<le> length cs"
    by (simp add: length_dropWhile_le)
  also have "length cs < length (dropWhile isspace s)"
    using d by simp
  also have "\<dots> \<le> length s"
    by (rule length_dropWhile_le)
  finally show "(dropWhile (\<lambda>x. \<not> isspace x) (c # cs), s) \<in> measure length"
    by simp
qed

declare str_split.simps [simp del]

text \<open>\<^verbatim>\<open>sep.join(xs)\<close>.\<close>

fun str_join :: "pystr \<Rightarrow> pystr list \<Rightarrow> pystr" where
  "str_join sep [] = []"
| "str_join sep [x] = x"
| "str_join sep (x # y # ys) = x @ sep @ str_join sep (y # ys)"

text \<open>\<^verbatim>\<open>s.strip()\<close>: drop the leading and the trailing whitespace.\<close>

definition str_strip :: "pystr \<Rightarrow> pystr" where
  "str_strip s = rev (dropWhile isspace (rev (dropWhile isspace s)))"

text \<open>
  \<^verbatim>\<open>s[:n]\<close> for a Python integer \<open>n\<close>: the first \<open>n\<close> characters, and for a negative
  \<open>n\<close> all but the last \<open>-n\<close>.
\<close>

definition slice_to :: "pystr \<Rightarrow> int \<Rightarrow> pystr" where
  "slice_to s n = (if 0 \<le> n then take (nat n) s else take (nat (int (length s) + n)) s)"

text \<open>
  The whitespace normalisation that ends \<^verbatim>\<open>_clean_body\<close>:
  \<^verbatim>\<open>" ".join(cleaned.split())\<close>.
\<close>

definition normalise :: "pystr \<Rightarrow> pystr" where
  "normalise s = str_join SP (str_split s)"


section \<open>The parsed document\<close>

text \<open>
  The classes of string that a BeautifulSoup tree holds. \<open>NavigableString\<close> is ordinary
  text; the others are its subclasses, for a CDATA section, a comment, a declaration, a
  doctype, a processing instruction, and for the text the HTML tree builders put
  directly inside \<^verbatim>\<open>script\<close>, \<^verbatim>\<open>style\<close>, \<^verbatim>\<open>template\<close>, \<^verbatim>\<open>rt\<close> and
  \<^verbatim>\<open>rp\<close>.
\<close>

datatype string_class =
    NavigableString | CData | Comment | Declaration | Doctype | ProcessingInstruction
  | Script | Stylesheet | TemplateString | RubyTextString | RubyParenthesisString

text \<open>
  A node of the tree is a string or a \<^verbatim>\<open>Tag\<close> with its name, its attribute dictionary
  (an association list read with \<open>map_of\<close>) and its contents in document order.
\<close>

datatype node =
    Text string_class pystr
  | Tag pystr "(pystr \<times> pystr) list" "node list"

text \<open>
  The \<^verbatim>\<open>BeautifulSoup\<close> object is itself a tag, named \<^verbatim>\<open>[document]\<close>, whose contents
  are the top-level nodes of the page.
\<close>

definition document :: "node list \<Rightarrow> node" where
  "document cs = Tag (py ''[document]'') [] cs"

fun contents :: "node \<Rightarrow> node list" where
  "contents (Tag n a cs) = cs"
| "contents (Text k s) = []"

text \<open>
  \<^verbatim>\<open>BeautifulSoup(markup, "html.parser")\<close>. The parser belongs to the library, not to
  this program, so it is a parameter: it gives the top-level nodes of the document, or
  \<open>None\<close> when the constructor raises.
\<close>

type_synonym parser = "pystr \<Rightarrow> node list option"

text \<open>
  \<^verbatim>\<open>requests.get(url, timeout=10)\<close>, \<^verbatim>\<open>raise_for_status()\<close> and \<^verbatim>\<open>resp.text\<close>: the
  network is a parameter too, giving the markup or \<open>None\<close> when either call raises.
\<close>

type_synonym fetcher = "pystr \<Rightarrow> pystr option"

datatype error = FetchError | ParseError | KeyError | TypeError

record UrlArg =
  url :: pystr
  max_chars :: int

definition MAX_CHARS :: int where
  "MAX_CHARS = 40000"

subsection \<open>Traversal\<close>

text \<open>The nodes of a sequence of siblings and everything below them, in document order.\<close>

fun forest :: "node list \<Rightarrow> node list" where
  "forest [] = []"
| "forest (Text k s # ns) = Text k s # forest ns"
| "forest (Tag n a cs # ns) = Tag n a cs # forest cs @ forest ns"

text \<open>\<^verbatim>\<open>tag.descendants\<close>: everything below the tag, the tag itself excluded.\<close>

definition descendants :: "node \<Rightarrow> node list" where
  "descendants t = forest (contents t)"

text \<open>
  \<^verbatim>\<open>tag.find_all(names, attr=True, ...)\<close>: the descendant tags whose name is one of
  \<open>names\<close> and that carry every attribute of \<open>required\<close>, in document order. A string
  node never matches a name.
\<close>

fun matches :: "pystr list \<Rightarrow> pystr list \<Rightarrow> node \<Rightarrow> bool" where
  "matches names required (Tag n a cs) =
     (n \<in> set names \<and> list_all (\<lambda>k. map_of a k \<noteq> None) required)"
| "matches names required (Text k s) = False"

definition find_all :: "pystr list \<Rightarrow> pystr list \<Rightarrow> node \<Rightarrow> node list" where
  "find_all names required t = filter (matches names required) (descendants t)"

text \<open>\<^verbatim>\<open>tag.find(name)\<close>, which \<^verbatim>\<open>soup.body\<close> abbreviates: the first match, or \<^verbatim>\<open>None\<close>.\<close>

definition find :: "pystr \<Rightarrow> node \<Rightarrow> node option" where
  "find name t = (case find_all [name] [] t of [] \<Rightarrow> None | x # xs \<Rightarrow> Some x)"

text \<open>
  \<^verbatim>\<open>for element in soup.find_all(names): element.decompose()\<close>. The list of matches is
  built before the loop starts; \<^verbatim>\<open>decompose\<close> takes an element out of its parent's
  contents and destroys everything below it, so a match inside an earlier match goes
  with it. After the loop the tree has lost every subtree rooted at a matching tag.
\<close>

fun prune :: "pystr list \<Rightarrow> node list \<Rightarrow> node list" where
  "prune names [] = []"
| "prune names (Text k s # ns) = Text k s # prune names ns"
| "prune names (Tag n a cs # ns) =
     (if n \<in> set names then prune names ns
      else Tag n a (prune names cs) # prune names ns)"

definition decompose_all :: "pystr list \<Rightarrow> node \<Rightarrow> node" where
  "decompose_all names t =
     (case t of Tag n a cs \<Rightarrow> Tag n a (prune names cs) | Text k s \<Rightarrow> Text k s)"

text \<open>
  \<^verbatim>\<open>tag.stripped_strings\<close>: the descendant strings whose class is exactly
  \<^verbatim>\<open>NavigableString\<close> or \<^verbatim>\<open>CData\<close>, each stripped, the empty ones left out.
\<close>

fun string_of :: "node \<Rightarrow> pystr option" where
  "string_of (Text k s) = (if k = NavigableString \<or> k = CData then Some s else None)"
| "string_of (Tag n a cs) = None"

definition stripped_strings :: "node \<Rightarrow> pystr list" where
  "stripped_strings t =
     filter (\<lambda>s. s \<noteq> []) (map str_strip (List.map_filter string_of (descendants t)))"

text \<open>\<^verbatim>\<open>tag[key]\<close>: the attribute's value, \<^verbatim>\<open>KeyError\<close> when the tag has none.\<close>

fun getitem :: "node \<Rightarrow> pystr \<Rightarrow> error + pystr" where
  "getitem (Tag n a cs) key = (case map_of a key of None \<Rightarrow> Inl KeyError | Some v \<Rightarrow> Inr v)"
| "getitem (Text k s) key = Inl TypeError"

text \<open>A list comprehension \<^verbatim>\<open>[f(x) for x in xs]\<close> whose body may raise.\<close>

fun comprehension :: "('a \<Rightarrow> error + 'b) \<Rightarrow> 'a list \<Rightarrow> error + 'b list" where
  "comprehension f [] = Inr []"
| "comprehension f (x # xs) =
     (case f x of
        Inl e \<Rightarrow> Inl e
      | Inr y \<Rightarrow> (case comprehension f xs of Inl e \<Rightarrow> Inl e | Inr ys \<Rightarrow> Inr (y # ys)))"

section \<open>The program\<close>

definition boilerplate :: "pystr list" where
  "boilerplate =
     [py ''script'', py ''style'', py ''noscript'', py ''header'', py ''footer'', py ''nav'']"

text \<open>\<^verbatim>\<open>_clean_body(html)\<close>.\<close>

definition clean_body :: "parser \<Rightarrow> pystr \<Rightarrow> error + pystr" where
  "clean_body parse html =
     (case parse html of
        None \<Rightarrow> Inl ParseError
      | Some nodes \<Rightarrow>
          (let soup = decompose_all boilerplate (document nodes);
               body = (case find (py ''body'') soup of Some b \<Rightarrow> b | None \<Rightarrow> soup);
               cleaned = str_join SP (stripped_strings body)
           in Inr (normalise cleaned)))"

text \<open>\<^verbatim>\<open>fetch_url_text(args)\<close>.\<close>

definition fetch_url_text :: "fetcher \<Rightarrow> parser \<Rightarrow> UrlArg \<Rightarrow> error + pystr" where
  "fetch_url_text get parse args =
     (case get (url args) of
        None \<Rightarrow> Inl FetchError
      | Some html \<Rightarrow>
          (case clean_body parse html of
             Inl e \<Rightarrow> Inl e
           | Inr cleaned \<Rightarrow> Inr (slice_to cleaned (max_chars args))))"

text \<open>\<^verbatim>\<open>fetch_page_links(args)\<close>.\<close>

definition fetch_page_links :: "fetcher \<Rightarrow> parser \<Rightarrow> UrlArg \<Rightarrow> error + pystr list" where
  "fetch_page_links get parse args =
     (case get (url args) of
        None \<Rightarrow> Inl FetchError
      | Some html \<Rightarrow>
          (case parse html of
             None \<Rightarrow> Inl ParseError
           | Some nodes \<Rightarrow>
               comprehension (\<lambda>a. getitem a (py ''href''))
                 (find_all [py ''a''] [py ''href''] (document nodes))))"


section \<open>Properties stated by the specification\<close>

text \<open>A word: a non-empty string without whitespace.\<close>

definition is_word :: "pystr \<Rightarrow> bool" where
  "is_word w \<longleftrightarrow> w \<noteq> [] \<and> list_all (\<lambda>c. \<not> isspace c) w"

text \<open>No two neighbouring characters are both whitespace.\<close>

fun no_adjacent_ws :: "pystr \<Rightarrow> bool" where
  "no_adjacent_ws (a # b # cs) = (\<not> (isspace a \<and> isspace b) \<and> no_adjacent_ws (b # cs))"
| "no_adjacent_ws cs = True"

text \<open>
  The specification's link collector: walk the whole tree in document order and, at each
  tag named \<^verbatim>\<open>a\<close> that has an \<^verbatim>\<open>href\<close> attribute, emit that attribute's value.
\<close>

fun links_in_order :: "node list \<Rightarrow> pystr list" where
  "links_in_order [] = []"
| "links_in_order (Text k s # ns) = links_in_order ns"
| "links_in_order (Tag n a cs # ns) =
     (if n = py ''a'' then (case map_of a (py ''href'') of Some v \<Rightarrow> [v] | None \<Rightarrow> []) else [])
     @ links_in_order cs @ links_in_order ns"

text \<open>
  Rewriting the attributes of every tag that is not an anchor, by an arbitrary function
  of the tag's name and attributes.
\<close>

fun reattr :: "(pystr \<Rightarrow> (pystr \<times> pystr) list \<Rightarrow> (pystr \<times> pystr) list) \<Rightarrow> node list \<Rightarrow> node list"
where
  "reattr f [] = []"
| "reattr f (Text k s # ns) = Text k s # reattr f ns"
| "reattr f (Tag n a cs # ns) =
     Tag n (if n = py ''a'' then a else f n a) (reattr f cs) # reattr f ns"

text \<open>
  The specification's steps 3 to 6. The scope root is the first tag named \<^verbatim>\<open>body\<close> in
  document order, or else the whole document.
\<close>

fun first_named :: "pystr \<Rightarrow> node list \<Rightarrow> node option" where
  "first_named name [] = None"
| "first_named name (Text k s # ns) = first_named name ns"
| "first_named name (Tag n a cs # ns) =
     (if n = name then Some (Tag n a cs)
      else (case first_named name cs of Some t \<Rightarrow> Some t | None \<Rightarrow> first_named name ns))"

definition scope_root :: "node list \<Rightarrow> node list" where
  "scope_root nodes =
     (case first_named (py ''body'') nodes of Some b \<Rightarrow> contents b | None \<Rightarrow> nodes)"

text \<open>
  What \<^verbatim>\<open>stripped_strings\<close> yields below a sequence of siblings, as a recursion over
  the tree.
\<close>

fun text_runs :: "node list \<Rightarrow> pystr list" where
  "text_runs [] = []"
| "text_runs (Text k s # ns) =
     (if (k = NavigableString \<or> k = CData) \<and> str_strip s \<noteq> [] then [str_strip s] else [])
     @ text_runs ns"
| "text_runs (Tag n a cs # ns) = text_runs cs @ text_runs ns"











text \<open>
  Two documents that differ only inside boilerplate elements: outside them the trees
  agree node for node, while a boilerplate element of either may hold anything, or be
  absent from the other.
\<close>

inductive same_outside_boilerplate :: "node list \<Rightarrow> node list \<Rightarrow> bool" where
  Nil: "same_outside_boilerplate [] []"
| Text: "same_outside_boilerplate ns ms \<Longrightarrow>
         same_outside_boilerplate (Text k s # ns) (Text k s # ms)"
| Tag: "n \<notin> set boilerplate \<Longrightarrow> same_outside_boilerplate cs ds \<Longrightarrow>
        same_outside_boilerplate ns ms \<Longrightarrow>
        same_outside_boilerplate (Tag n a cs # ns) (Tag n a ds # ms)"
| Left: "n \<in> set boilerplate \<Longrightarrow> same_outside_boilerplate ns ms \<Longrightarrow>
         same_outside_boilerplate (Tag n a cs # ns) ms"
| Right: "n \<in> set boilerplate \<Longrightarrow> same_outside_boilerplate ns ms \<Longrightarrow>
          same_outside_boilerplate ns (Tag n a cs # ms)"

code_pred same_outside_boilerplate .

text \<open>
  The visible text of a document: its text runs that lie in no boilerplate element.
\<close>

fun visible_runs :: "node list \<Rightarrow> pystr list" where
  "visible_runs [] = []"
| "visible_runs (Text k s # ns) =
     (if (k = NavigableString \<or> k = CData) \<and> str_strip s \<noteq> [] then [str_strip s] else [])
     @ visible_runs ns"
| "visible_runs (Tag n a cs # ns) =
     (if n \<in> set boilerplate then [] else visible_runs cs) @ visible_runs ns"

section \<open>A sample page\<close>

text \<open>
  A small page with its tree, and a second page that differs from the first only inside
  \<^verbatim>\<open>nav\<close> and \<^verbatim>\<open>footer\<close> elements. \<open>sample_parse\<close> knows
  these pages and the empty page, and rejects everything else; \<open>sample_get\<close> serves the
  first page and the empty page.
\<close>

definition sample_markup :: pystr where
  "sample_markup =
     py ''<body><nav><a href=/n>Nav</a></nav>  Hello <p>wor  ld</p><footer><a href=f>F</a></footer><a>x</a><link href=s.css><a href=/n></a></body>''"

definition sample_nodes :: "node list" where
  "sample_nodes =
     [Tag (py ''body'') []
        [Tag (py ''nav'') []
           [Tag (py ''a'') [(py ''href'', py ''/n'')] [Text NavigableString (py ''Nav'')]],
         Text NavigableString (py ''  Hello ''),
         Tag (py ''p'') [] [Text NavigableString (py ''wor  ld'')],
         Tag (py ''footer'') []
           [Tag (py ''a'') [(py ''href'', py ''f'')] [Text NavigableString (py ''F'')]],
         Tag (py ''a'') [] [Text NavigableString (py ''x'')],
         Tag (py ''link'') [(py ''href'', py ''s.css'')] [],
         Tag (py ''a'') [(py ''href'', py ''/n'')] []]]"

definition plain_markup :: pystr where
  "plain_markup =
     py ''<body>  Hello <p>wor  ld<nav>Menu</nav></p><a>x</a><link href=s.css><a href=/n></a></body>''"

definition plain_nodes :: "node list" where
  "plain_nodes =
     [Tag (py ''body'') []
        [Text NavigableString (py ''  Hello ''),
         Tag (py ''p'') []
           [Text NavigableString (py ''wor  ld''),
            Tag (py ''nav'') [] [Text NavigableString (py ''Menu'')]],
         Tag (py ''a'') [] [Text NavigableString (py ''x'')],
         Tag (py ''link'') [(py ''href'', py ''s.css'')] [],
         Tag (py ''a'') [(py ''href'', py ''/n'')] []]]"

definition sample_parse :: parser where
  "sample_parse html =
     (if html = sample_markup then Some sample_nodes
      else if html = plain_markup then Some plain_nodes
      else if html = [] then Some []
      else None)"

definition sample_get :: fetcher where
  "sample_get u =
     (if u = py ''http://example.org/'' then Some sample_markup
      else if u = py ''http://example.org/empty'' then Some []
      else None)"

definition sample_args :: "int \<Rightarrow> UrlArg" where
  "sample_args n = \<lparr>url = py ''http://example.org/'', max_chars = n\<rparr>"




section \<open>The sample page, evaluated\<close>

lemmas eval_defs = py_def sample_markup_def plain_markup_def sample_nodes_def plain_nodes_def
  sample_parse_def sample_get_def sample_args_def clean_body_def fetch_url_text_def
  fetch_page_links_def decompose_all_def document_def boilerplate_def find_def find_all_def
  descendants_def stripped_strings_def List.map_filter_def str_strip_def isspace_def SP_def
  normalise_def str_split.simps slice_to_def Let_def


lemma plain_clean: "clean_body sample_parse plain_markup = Inr (py ''Hello wor ld x'')"
  by (simp add: eval_defs)

lemma sample_text_6: "fetch_url_text sample_get sample_parse (sample_args 6) = Inr (py ''Hello '')"
  by (simp add: eval_defs)

lemma sample_text_9: "fetch_url_text sample_get sample_parse (sample_args 9) = Inr (py ''Hello wor'')"
  by (simp add: eval_defs)

lemma sample_links:
  "fetch_page_links sample_get sample_parse (sample_args 9) = Inr [py ''/n'', py ''f'', py ''/n'']"
  by (simp add: eval_defs)


lemma sample_same: "same_outside_boilerplate sample_nodes plain_nodes"
  unfolding sample_nodes_def plain_nodes_def
  by (intro same_outside_boilerplate.intros) (simp_all add: boilerplate_def py_def)

section \<open>Whitespace normalisation\<close>

lemma isspace_32: "isspace 32"
  by (simp add: isspace_def)

lemma str_split_Nil: "str_split [] = []"
  by (simp add: str_split.simps)

lemma str_split_space: "isspace c \<Longrightarrow> str_split (c # s) = str_split s"
  by (subst str_split.simps, subst (2) str_split.simps) simp

lemma str_split_word:
  assumes "w \<noteq> []" and "\<forall>c\<in>set w. \<not> isspace c" and "r = [] \<or> isspace (hd r)"
  shows "str_split (w @ r) = w # str_split r"
proof -
  obtain a w' where w: "w = a # w'"
    using assms(1) by (cases w) auto
  have d: "dropWhile isspace (w @ r) = a # (w' @ r)"
    using assms(2) w by simp
  have t: "takeWhile (\<lambda>x. \<not> isspace x) (w @ r) = w"
    using assms(2,3) by (cases r) (simp_all add: takeWhile_append2)
  have e: "dropWhile (\<lambda>x. \<not> isspace x) (w @ r) = r"
    using assms(2,3) by (cases r) simp_all
  show ?thesis
    using d t e w by (subst str_split.simps) simp
qed

lemma str_split_words: "list_all is_word (str_split s)"
proof (induction s rule: str_split.induct)
  case (1 s)
  show ?case
  proof (cases "dropWhile isspace s")
    case Nil
    show ?thesis by (subst str_split.simps, subst Nil) simp
  next
    case (Cons c cs)
    have nc: "\<not> isspace c"
      using Cons hd_dropWhile [of isspace s] by auto
    have "is_word (takeWhile (\<lambda>x. \<not> isspace x) (c # cs))"
      using nc by (auto simp: is_word_def list_all_iff dest: set_takeWhileD)
    moreover have "list_all is_word (str_split (dropWhile (\<lambda>x. \<not> isspace x) (c # cs)))"
      using 1 [OF Cons] .
    ultimately show ?thesis
      using Cons by (subst str_split.simps) simp
  qed
qed

lemma str_split_join: "list_all is_word ws \<Longrightarrow> str_split (str_join SP ws) = ws"
proof (induction ws rule: induct_list012)
  case 1
  show ?case by (simp add: str_split_Nil)
next
  case (2 x)
  then show ?case
    using str_split_word [of x "[]"] by (simp add: is_word_def list_all_iff str_split_Nil)
next
  case (3 x y ys)
  have "str_split (x @ SP @ str_join SP (y # ys)) = x # str_split (SP @ str_join SP (y # ys))"
    using 3(3) by (intro str_split_word) (auto simp: is_word_def list_all_iff SP_def isspace_32)
  also have "str_split (SP @ str_join SP (y # ys)) = str_split (str_join SP (y # ys))"
    by (simp add: SP_def str_split_space isspace_32)
  also have "\<dots> = y # ys"
    using 3 by simp
  finally show ?case by simp
qed

text \<open>
  C7. Normalising whitespace a second time changes nothing: for every string \<open>s\<close>,
  \<^verbatim>\<open>" ".join(t.split())\<close> applied to \<^verbatim>\<open>t = " ".join(s.split())\<close> gives \<open>t\<close> back.
\<close>

theorem normalise_idempotent: "normalise (normalise s) = normalise s"
  by (simp add: normalise_def str_split_join str_split_words)

theorem normalise_idempotent_witness:
  "normalise (py ''  ab   c '') = py ''ab c'' \<and> normalise (py ''ab c'') = py ''ab c''"
proof -
  have e: "normalise (py ''  ab   c '') = py ''ab c''"
    by (simp add: normalise_def py_def str_split.simps isspace_def SP_def)
  show ?thesis
    using normalise_idempotent [of "py ''  ab   c ''"] e by simp
qed

subsection \<open>Split and join against collapse and trim\<close>









subsection \<open>The shape of a normalised string\<close>

lemma no_adjacent_ws_Cons:
  "\<not> isspace a \<or> x = [] \<or> \<not> isspace (hd x) \<Longrightarrow> no_adjacent_ws (a # x) = no_adjacent_ws x"
  by (cases x) auto

lemma no_adjacent_ws_word:
  "\<forall>c\<in>set w. \<not> isspace c \<Longrightarrow> no_adjacent_ws (w @ x) = no_adjacent_ws x"
  by (induction w) (simp_all add: no_adjacent_ws_Cons)

lemma is_word_hd: "is_word w \<Longrightarrow> \<not> isspace (hd w)"
  by (cases w) (auto simp: is_word_def)

lemma is_word_last: "is_word w \<Longrightarrow> \<not> isspace (last w)"
  by (auto simp: is_word_def list_all_iff)

lemma str_join_hd:
  "list_all is_word ws \<Longrightarrow> ws \<noteq> [] \<Longrightarrow>
   str_join SP ws \<noteq> [] \<and> hd (str_join SP ws) = hd (hd ws)"
  by (induction ws rule: induct_list012) (auto simp: is_word_def)

lemma str_join_last:
  "list_all is_word ws \<Longrightarrow> ws \<noteq> [] \<Longrightarrow> last (str_join SP ws) = last (last ws)"
proof (induction ws rule: induct_list012)
  case (3 x y ys)
  have w: "list_all is_word (y # ys)"
    using 3(3) by simp
  have "str_join SP (y # ys) \<noteq> []"
    using str_join_hd [OF w] by simp
  then have "last (str_join SP (x # y # ys)) = last (str_join SP (y # ys))"
    by simp
  then show ?case
    using 3(2) w by simp
qed simp_all

lemma str_join_no_adjacent: "list_all is_word ws \<Longrightarrow> no_adjacent_ws (str_join SP ws)"
proof (induction ws rule: induct_list012)
  case 1
  show ?case by simp
next
  case (2 x)
  then show ?case
    using no_adjacent_ws_word [of x "[]"] by (simp add: is_word_def list_all_iff)
next
  case (3 x y ys)
  have w: "list_all is_word (y # ys)"
    using 3(3) by simp
  have "\<not> isspace (hd (str_join SP (y # ys)))"
    using str_join_hd [OF w] w by (simp add: is_word_hd)
  then have "no_adjacent_ws (32 # str_join SP (y # ys)) = no_adjacent_ws (str_join SP (y # ys))"
    by (intro no_adjacent_ws_Cons) simp
  then have "no_adjacent_ws (32 # str_join SP (y # ys))"
    using 3(2) w by simp
  then show ?case
    using 3(3) no_adjacent_ws_word [of x] by (simp add: SP_def is_word_def list_all_iff)
qed

lemma str_join_only_spaces:
  "list_all is_word ws \<Longrightarrow> list_all (\<lambda>c. isspace c \<longrightarrow> c = 32) (str_join SP ws)"
  by (induction ws rule: induct_list012) (auto simp: is_word_def list_all_iff SP_def)

lemma no_adjacent_ws_tail: "no_adjacent_ws (a # s) \<Longrightarrow> no_adjacent_ws s"
  by (cases s) simp_all

lemma no_adjacent_ws_take: "no_adjacent_ws s \<Longrightarrow> no_adjacent_ws (take n s)"
proof (induction s arbitrary: n)
  case Nil
  show ?case by simp
next
  case (Cons a s)
  show ?case
  proof (cases n)
    case 0
    then show ?thesis by simp
  next
    case (Suc k)
    have ih: "no_adjacent_ws (take k s)"
      using Cons no_adjacent_ws_tail by blast
    show ?thesis
      using Cons.prems ih Suc by (cases s; cases k) auto
  qed
qed

lemma normalise_normal:
  "list_all (\<lambda>c. isspace c \<longrightarrow> c = 32) (normalise s)"
  "no_adjacent_ws (normalise s)"
  "normalise s \<noteq> [] \<Longrightarrow> \<not> isspace (hd (normalise s))"
  "normalise s \<noteq> [] \<Longrightarrow> \<not> isspace (last (normalise s))"
proof -
  have w: "list_all is_word (str_split s)" by (rule str_split_words)
  show "list_all (\<lambda>c. isspace c \<longrightarrow> c = 32) (normalise s)"
    unfolding normalise_def by (rule str_join_only_spaces [OF w])
  show "no_adjacent_ws (normalise s)"
    unfolding normalise_def by (rule str_join_no_adjacent [OF w])
  assume n: "normalise s \<noteq> []"
  then have ne: "str_split s \<noteq> []"
    by (auto simp: normalise_def)
  have "is_word (hd (str_split s))" "is_word (last (str_split s))"
    using w ne by (auto simp: list_all_iff)
  then show "\<not> isspace (hd (normalise s))" "\<not> isspace (last (normalise s))"
    using str_join_hd [OF w ne] str_join_last [OF w ne]
    by (simp_all add: normalise_def is_word_hd is_word_last)
qed

section \<open>Text extraction\<close>

lemma fetch_url_text_Inr:
  "fetch_url_text get parse args = Inr r \<Longrightarrow>
   \<exists>html cleaned. get (url args) = Some html \<and> clean_body parse html = Inr cleaned \<and>
      r = slice_to cleaned (max_chars args)"
  by (auto simp: fetch_url_text_def split: option.splits sum.splits)

lemma clean_body_Inr:
  "clean_body parse html = Inr cleaned \<Longrightarrow> \<exists>s. cleaned = normalise s"
  by (auto simp: clean_body_def Let_def split: option.splits)

lemma length_slice_to: "0 < n \<Longrightarrow> int (length (slice_to s n)) \<le> n"
  by (simp add: slice_to_def)

text \<open>
  C1. Whenever \<^verbatim>\<open>fetch_url_text\<close> returns a string for a positive \<^verbatim>\<open>max_chars\<close>, the
  string has at most \<^verbatim>\<open>max_chars\<close> characters, whatever the markup was.
\<close>

theorem fetch_url_text_length:
  "0 < max_chars args \<Longrightarrow> fetch_url_text get parse args = Inr r \<Longrightarrow>
   int (length r) \<le> max_chars args"
  by (auto dest!: fetch_url_text_Inr simp: length_slice_to)

theorem fetch_url_text_length_witness:
  "0 < max_chars (sample_args 9) \<and>
   fetch_url_text sample_get sample_parse (sample_args 9) = Inr (py ''Hello wor'') \<and>
   int (length (py ''Hello wor'')) \<le> max_chars (sample_args 9)"
proof -
  have p: "0 < max_chars (sample_args 9)"
    by (simp add: sample_args_def)
  show ?thesis
    using p sample_text_9 fetch_url_text_length [OF p sample_text_9] by simp
qed

text \<open>
  C4. For positive budgets \<open>n \<le> m\<close>, the result with budget \<open>n\<close> is the first \<open>n\<close>
  characters of the result with budget \<open>m\<close> on the same page, nothing more done to
  them (and the same error when the fetch or the parse fails).
\<close>

theorem fetch_url_text_prefix:
  "0 < n \<Longrightarrow> n \<le> m \<Longrightarrow>
   fetch_url_text get parse (args\<lparr>max_chars := n\<rparr>) =
   map_sum id (take (nat n)) (fetch_url_text get parse (args\<lparr>max_chars := m\<rparr>))"
  by (simp add: fetch_url_text_def slice_to_def min_def split: option.splits sum.splits)

theorem fetch_url_text_prefix_witness:
  "(0::int) < 6 \<and> (6::int) \<le> 9 \<and>
   fetch_url_text sample_get sample_parse (sample_args 9) = Inr (py ''Hello wor'') \<and>
   fetch_url_text sample_get sample_parse (sample_args 6) = Inr (take 6 (py ''Hello wor'')) \<and>
   take 6 (py ''Hello wor'') = py ''Hello ''"
proof -
  have a: "(sample_args 9)\<lparr>max_chars := 6\<rparr> = sample_args 6"
    and b: "(sample_args 9)\<lparr>max_chars := 9\<rparr> = sample_args 9"
    by (simp_all add: sample_args_def)
  have "fetch_url_text sample_get sample_parse (sample_args 6) =
      map_sum id (take (nat 6)) (fetch_url_text sample_get sample_parse (sample_args 9))"
    using fetch_url_text_prefix [of 6 9 sample_get sample_parse "sample_args 9"]
    by (simp only: a b)
  then show ?thesis
    by (simp add: sample_text_9) (simp add: py_def)
qed

text \<open>
  C9. A string returned by \<^verbatim>\<open>fetch_url_text\<close> for a positive budget holds no whitespace
  character but the space U+0020, has no two whitespace characters next to each other,
  and does not start with whitespace. It can end with a space only when the slice cut it
  there, that is, only when it is exactly \<^verbatim>\<open>max_chars\<close> long.
\<close>

theorem fetch_url_text_normal_form:
  assumes "0 < max_chars args" and "fetch_url_text get parse args = Inr r"
  shows "list_all (\<lambda>c. isspace c \<longrightarrow> c = 32) r \<and> no_adjacent_ws r \<and>
         (r \<noteq> [] \<longrightarrow> \<not> isspace (hd r)) \<and>
         (r \<noteq> [] \<and> isspace (last r) \<longrightarrow> int (length r) = max_chars args)"
proof -
  obtain s where r: "r = take (nat (max_chars args)) (normalise s)"
    using assms by (auto dest!: fetch_url_text_Inr clean_body_Inr simp: slice_to_def)
  have pos: "0 < nat (max_chars args)"
    using assms(1) by simp
  have a: "list_all (\<lambda>c. isspace c \<longrightarrow> c = 32) r"
    using normalise_normal(1) [of s] by (auto simp: r list_all_iff dest: in_set_takeD)
  have b: "no_adjacent_ws r"
    unfolding r by (rule no_adjacent_ws_take) (rule normalise_normal)
  have c: "\<not> isspace (hd r)" if "r \<noteq> []"
  proof -
    have "normalise s \<noteq> []" using that r by auto
    moreover have "hd r = hd (normalise s)"
      using pos by (simp add: r)
    ultimately show ?thesis
      using normalise_normal(3) by simp
  qed
  have d: "int (length r) = max_chars args" if "r \<noteq> []" "isspace (last r)"
  proof (rule ccontr)
    assume "int (length r) \<noteq> max_chars args"
    then have "r = normalise s"
      using assms(1) by (auto simp: r min_def split: if_splits)
    then show False
      using that normalise_normal(4) [of s] by simp
  qed
  show ?thesis using a b c d by blast
qed

theorem fetch_url_text_normal_form_witness:
  "0 < max_chars (sample_args 6) \<and>
   fetch_url_text sample_get sample_parse (sample_args 6) = Inr (py ''Hello '') \<and>
   list_all (\<lambda>c. isspace c \<longrightarrow> c = 32) (py ''Hello '') \<and> no_adjacent_ws (py ''Hello '') \<and>
   \<not> isspace (hd (py ''Hello '')) \<and> isspace (last (py ''Hello '')) \<and>
   int (length (py ''Hello '')) = max_chars (sample_args 6)"
proof -
  have p: "0 < max_chars (sample_args 6)"
    by (simp add: sample_args_def)
  have q: "isspace (last (py ''Hello ''))" "py ''Hello '' \<noteq> []"
    by (simp_all add: py_def isspace_def)
  show ?thesis
    using p q sample_text_6 fetch_url_text_normal_form [OF p sample_text_6] by simp
qed

subsection \<open>What the tree operations compute\<close>

lemma map_filter_append:
  "List.map_filter f (xs @ ys) = List.map_filter f xs @ List.map_filter f ys"
  by (simp add: List.map_filter_def)

lemma strings_forest:
  "filter (\<lambda>s. s \<noteq> []) (map str_strip (List.map_filter string_of (forest ns))) = text_runs ns"
  by (induction ns rule: forest.induct) (simp_all add: List.map_filter_simps map_filter_append)

lemma stripped_strings_eq: "stripped_strings t = text_runs (contents t)"
  by (simp add: stripped_strings_def descendants_def strings_forest)

lemma first_match_append:
  "(case xs @ ys of [] \<Rightarrow> None | x # zs \<Rightarrow> Some x) =
   (case xs of [] \<Rightarrow> (case ys of [] \<Rightarrow> None | y # zs \<Rightarrow> Some y) | x # zs \<Rightarrow> Some x)"
  by (cases xs) simp_all

lemma first_forest:
  "(case filter (matches [name] []) (forest ns) of [] \<Rightarrow> None | x # xs \<Rightarrow> Some x) =
   first_named name ns"
proof (induction ns rule: forest.induct)
  case (3 n a cs ns)
  show ?case
    by (simp add: first_match_append 3 [symmetric] split: list.splits)
qed simp_all

lemma find_eq: "find name t = first_named name (contents t)"
  by (simp add: find_def find_all_def descendants_def first_forest)

text \<open>After the loop no element of the listed names is left in the tree.\<close>

lemma forest_prune_no_match: "filter (matches names []) (forest (prune names ns)) = []"
  by (induction names ns rule: prune.induct) simp_all

lemma find_all_decompose_all: "find_all names [] (decompose_all names (document nodes)) = []"
  by (simp add: find_all_def descendants_def decompose_all_def document_def
      forest_prune_no_match)

lemma clean_body_eq:
  "clean_body parse html =
     (case parse html of
        None \<Rightarrow> Inl ParseError
      | Some nodes \<Rightarrow>
          Inr (normalise (str_join SP (text_runs (scope_root (prune boilerplate nodes))))))"
  by (simp add: clean_body_def Let_def find_eq stripped_strings_eq decompose_all_def
      document_def scope_root_def split: option.splits)









lemma prune_same_outside:
  "same_outside_boilerplate ns ms \<Longrightarrow> prune boilerplate ns = prune boilerplate ms"
  by (induction rule: same_outside_boilerplate.induct) simp_all

text \<open>
  C2. What stands inside a \<^verbatim>\<open>script\<close>, \<^verbatim>\<open>style\<close>, \<^verbatim>\<open>noscript\<close>, \<^verbatim>\<open>header\<close>,
  \<^verbatim>\<open>footer\<close> or \<^verbatim>\<open>nav\<close> element has no part in the output of \<^verbatim>\<open>_clean_body\<close>: two
  pages whose trees agree everywhere outside such elements, at any depth, give the same
  output, whatever those elements hold and whether they are there at all.
\<close>

theorem boilerplate_contributes_nothing:
  "same_outside_boilerplate ns ms \<Longrightarrow> parse html = Some ns \<Longrightarrow> parse html' = Some ms \<Longrightarrow>
   clean_body parse html = clean_body parse html'"
  by (simp add: clean_body_eq prune_same_outside)

theorem boilerplate_contributes_nothing_witness:
  "same_outside_boilerplate sample_nodes plain_nodes \<and>
   sample_parse sample_markup = Some sample_nodes \<and>
   sample_parse plain_markup = Some plain_nodes \<and>
   clean_body sample_parse sample_markup = clean_body sample_parse plain_markup \<and>
   clean_body sample_parse plain_markup = Inr (py ''Hello wor ld x'')"
proof -
  have p: "sample_parse sample_markup = Some sample_nodes"
    by (simp add: sample_parse_def)
  have q: "sample_parse plain_markup = Some plain_nodes"
    by (simp add: sample_parse_def sample_markup_def plain_markup_def py_def)
  show ?thesis
    using sample_same p q plain_clean boilerplate_contributes_nothing [OF sample_same p q]
    by simp
qed

lemma text_runs_prune: "text_runs (prune boilerplate ns) = visible_runs ns"
  by (induction ns rule: visible_runs.induct) simp_all

lemma first_named_runs:
  "first_named name ns = Some b \<Longrightarrow> set (text_runs (contents b)) \<subseteq> set (text_runs ns)"
  by (induction name ns rule: first_named.induct) (auto split: if_splits option.splits)

lemma scope_root_runs: "set (text_runs (scope_root ns)) \<subseteq> set (text_runs ns)"
  by (auto simp: scope_root_def split: option.splits dest: first_named_runs)

text \<open>
  C8. When the page is fetched and parsed and its tree has no visible text, which covers
  the page without a \<^verbatim>\<open>body\<close> and the empty page, \<^verbatim>\<open>fetch_url_text\<close> returns the
  empty string, for every budget, and raises nothing.
\<close>

theorem no_visible_text_empty:
  assumes "get (url args) = Some html" and "parse html = Some nodes"
    and "visible_runs nodes = []"
  shows "fetch_url_text get parse args = Inr []"
proof -
  have "set (text_runs (scope_root (prune boilerplate nodes))) \<subseteq> set (visible_runs nodes)"
    using scope_root_runs [of "prune boilerplate nodes"] by (simp add: text_runs_prune)
  then have "text_runs (scope_root (prune boilerplate nodes)) = []"
    using assms(3) by simp
  then have "clean_body parse html = Inr []"
    using assms(2) by (simp add: clean_body_eq normalise_def str_split_Nil)
  then show ?thesis
    using assms(1) by (simp add: fetch_url_text_def slice_to_def)
qed

theorem no_visible_text_empty_witness:
  "sample_get (py ''http://example.org/empty'') = Some [] \<and> sample_parse [] = Some [] \<and>
   visible_runs [] = [] \<and> first_named (py ''body'') [] = None \<and>
   fetch_url_text sample_get sample_parse \<lparr>url = py ''http://example.org/empty'', max_chars = 1\<rparr>
     = Inr []"
proof -
  have g: "sample_get (url \<lparr>url = py ''http://example.org/empty'', max_chars = 1\<rparr>) = Some []"
    by (simp add: sample_get_def py_def)
  have p: "sample_parse [] = Some []"
    by (simp add: sample_parse_def sample_markup_def plain_markup_def py_def)
  have v: "visible_runs [] = []"
    by simp
  show ?thesis
    using g p v
      no_visible_text_empty [where get = sample_get and parse = sample_parse
        and html = "[]" and nodes = "[]"
        and args = "\<lparr>url = py ''http://example.org/empty'', max_chars = 1\<rparr>"]
    by simp
qed

section \<open>Link collection\<close>

lemma comprehension_append:
  "comprehension f xs = Inr as \<Longrightarrow> comprehension f ys = Inr bs \<Longrightarrow>
   comprehension f (xs @ ys) = Inr (as @ bs)"
  by (induction xs arbitrary: as) (auto split: sum.splits)

lemma links_forest:
  "comprehension (\<lambda>a. getitem a (py ''href''))
     (filter (matches [py ''a''] [py ''href'']) (forest ns)) = Inr (links_in_order ns)"
proof (induction ns rule: forest.induct)
  case (3 n a cs ns)
  have rest: "comprehension (\<lambda>a. getitem a (py ''href''))
     (filter (matches [py ''a''] [py ''href'']) (forest cs @ forest ns))
      = Inr (links_in_order cs @ links_in_order ns)"
    using 3 by (simp add: comprehension_append)
  show ?case
    using rest by (auto split: option.splits)
qed simp_all

lemma links_of_document:
  "comprehension (\<lambda>a. getitem a (py ''href''))
     (find_all [py ''a''] [py ''href''] (document nodes)) = Inr (links_in_order nodes)"
  by (simp add: find_all_def descendants_def document_def links_forest)

text \<open>
  C5. On every page that is fetched and parsed, \<^verbatim>\<open>fetch_page_links\<close> returns the list
  that a walk of the whole, unpruned tree in document order produces when it emits, at
  each \<^verbatim>\<open>a\<close> element that has an \<^verbatim>\<open>href\<close>, the attribute's value as the tree holds
  it: one entry for each such anchor, repeated values kept, anchors below \<^verbatim>\<open>nav\<close> or
  \<^verbatim>\<open>footer\<close> included, anchors without \<^verbatim>\<open>href\<close> passed over. No \<^verbatim>\<open>KeyError\<close> can
  arise.
\<close>

theorem fetch_page_links_in_order:
  "fetch_page_links get parse args =
     (case get (url args) of
        None \<Rightarrow> Inl FetchError
      | Some html \<Rightarrow>
          (case parse html of
             None \<Rightarrow> Inl ParseError
           | Some nodes \<Rightarrow> Inr (links_in_order nodes)))"
  by (simp add: fetch_page_links_def links_of_document split: option.splits)

theorem fetch_page_links_in_order_witness:
  "sample_get (url (sample_args 9)) = Some sample_markup \<and>
   sample_parse sample_markup = Some sample_nodes \<and>
   fetch_page_links sample_get sample_parse (sample_args 9) = Inr (links_in_order sample_nodes) \<and>
   links_in_order sample_nodes = [py ''/n'', py ''f'', py ''/n'']"
proof -
  have g: "sample_get (url (sample_args 9)) = Some sample_markup"
    by (simp add: sample_get_def sample_args_def)
  have p: "sample_parse sample_markup = Some sample_nodes"
    by (simp add: sample_parse_def)
  show ?thesis
    using g p sample_links fetch_page_links_in_order [of sample_get sample_parse "sample_args 9"]
    by simp
qed

lemma links_reattr: "links_in_order (reattr f ns) = links_in_order ns"
  by (induction f ns rule: reattr.induct) simp_all

text \<open>
  C10. Only \<^verbatim>\<open>a\<close> elements count: the attributes of every other element, \<^verbatim>\<open>href\<close>
  among them, can be rewritten at will, added or taken away, and \<^verbatim>\<open>fetch_page_links\<close>
  returns the same list.
\<close>

theorem links_only_from_anchors:
  "fetch_page_links get (\<lambda>html. map_option (reattr f) (parse html)) args =
   fetch_page_links get parse args"
  by (simp add: fetch_page_links_def links_of_document links_reattr split: option.splits)

theorem links_only_from_anchors_witness:
  "fetch_page_links sample_get
     (\<lambda>html. map_option (reattr (\<lambda>n a. [(py ''href'', py ''other'')])) (sample_parse html))
     (sample_args 9) = Inr [py ''/n'', py ''f'', py ''/n'']"
  using links_only_from_anchors
    [of sample_get "\<lambda>n a. [(py ''href'', py ''other'')]" sample_parse "sample_args 9"]
  by (simp add: sample_links)

section \<open>Failure\<close>

text \<open>
  Neither operation catches or raises anything of its own after the fetch: with the
  markup in hand, each fails exactly when the parser does.
\<close>

lemma clean_body_fails_iff: "(\<exists>e. clean_body parse html = Inl e) \<longleftrightarrow> parse html = None"
  by (simp add: clean_body_eq split: option.splits)

lemma fetch_page_links_fails_iff:
  "get (url args) = Some html \<Longrightarrow>
   (\<exists>e. fetch_page_links get parse args = Inl e) \<longleftrightarrow> parse html = None"
  by (simp add: fetch_page_links_def links_of_document split: option.splits)

text \<open>With the page fetched and parsed, both operations return.\<close>

lemma fetch_url_text_returns:
  "get (url args) = Some html \<Longrightarrow> parse html = Some nodes \<Longrightarrow>
   \<exists>r. fetch_url_text get parse args = Inr r"
  by (simp add: fetch_url_text_def clean_body_eq)

lemma fetch_page_links_returns:
  "get (url args) = Some html \<Longrightarrow> parse html = Some nodes \<Longrightarrow>
   \<exists>r. fetch_page_links get parse args = Inr r"
  by (simp add: fetch_page_links_def links_of_document)

end
